theory Spec2Isabelle
  imports Main
begin

section \<open>Python values\<close>

text \<open>
  A webhook body parsed by \<open>request.json()\<close>. Numbers are integers here: in the providers'
  payloads a float occurs only as \<open>amount\<close>, which the handler copies and never inspects.
  An object is the parsed dict, each key once.
\<close>

datatype json = JNull | JBool bool | JNum int | JStr string | JArr "json list" | JObj "(string \<times> json) list"

text \<open>
  The exceptions the handlers can meet, by their Python class. \<open>IntegrityError\<close> is a
  constraint violation reported by the database; \<open>DBAPIError\<close> stands for every other error
  of the database or its driver (no connection, a refused parameter, a refused statement).
\<close>

datatype exn =
    AttributeError
  | TypeError
  | ConnectionError
  | ResponseError
  | IntegrityError
  | DBAPIError
  | PaymentError

text \<open>Truth value of a Python object, as \<open>if x\<close>, \<open>not x\<close> and \<open>x or y\<close> test it.\<close>

fun truthy :: "json \<Rightarrow> bool" where
  "truthy JNull = False"
| "truthy (JBool b) = b"
| "truthy (JNum n) = (n \<noteq> 0)"
| "truthy (JStr s) = (s \<noteq> [])"
| "truthy (JArr xs) = (xs \<noteq> [])"
| "truthy (JObj kvs) = (kvs \<noteq> [])"

definition py_or :: "json \<Rightarrow> json \<Rightarrow> json" where
  "py_or a b = (if truthy a then a else b)"

text \<open>\<open>d.get(k)\<close>: the value, or \<open>None\<close> for a missing key.\<close>

definition dict_get :: "(string \<times> json) list \<Rightarrow> string \<Rightarrow> json" where
  "dict_get d k = (case map_of d k of None \<Rightarrow> JNull | Some v \<Rightarrow> v)"

text \<open>Decimal rendering of an integer, as \<open>str\<close> and \<open>str.format\<close> produce it.\<close>

definition digit_char :: "nat \<Rightarrow> char" where
  "digit_char n = char_of (48 + n)"

fun digits_of :: "nat \<Rightarrow> string" where
  "digits_of n = (if n < 10 then [digit_char n] else digits_of (n div 10) @ [digit_char (n mod 10)])"

declare digits_of.simps [simp del]

definition str_int :: "int \<Rightarrow> string" where
  "str_int i = (if i < 0 then CHR ''-'' # digits_of (nat (- i)) else digits_of (nat i))"

definition str_opt_int :: "int option \<Rightarrow> string" where
  "str_opt_int v = (case v of None \<Rightarrow> ''None'' | Some i \<Rightarrow> str_int i)"

text \<open>
  \<open>str(x)\<close> on a parsed value. For a list or a dict Python returns the \<open>repr\<close>, with its
  quoting and escaping rules; that builtin is the parameter \<open>repr\<close>, and every theorem below
  holds for any choice of it.
\<close>

definition py_str :: "(json \<Rightarrow> string) \<Rightarrow> json \<Rightarrow> string" where
  "py_str repr j =
     (case j of
        JStr s \<Rightarrow> s
      | JNum n \<Rightarrow> str_int n
      | JBool b \<Rightarrow> (if b then ''True'' else ''False'')
      | JNull \<Rightarrow> ''None''
      | JArr xs \<Rightarrow> repr j
      | JObj kvs \<Rightarrow> repr j)"

text \<open>\<open>str.lower()\<close> on ASCII text.\<close>

definition lower_char :: "char \<Rightarrow> char" where
  "lower_char c = (let n = (of_char c :: nat) in if 65 \<le> n \<and> n \<le> 90 then char_of (n + 32) else c)"

definition py_lower :: "string \<Rightarrow> string" where
  "py_lower s = map lower_char s"

section \<open>The Redis store\<close>

text \<open>
  Modelled from the spec: \<open>app.redis_client\<close> is not among the sources. It is the client of
  the spec's Lease Store, "a shared key-value store supporting atomic set if absent with
  expiry and a compare-and-delete primitive executed as a single uninterruptible step". A
  key holds a value and, when it was set with \<open>EX\<close>, the instant at which it expires; a key
  past its expiry reads as absent. Each command is one atomic step. The flag \<open>up\<close> says
  whether the command reaches the server; when it does not, the client raises.
\<close>

type_synonym redis_store = "string \<Rightarrow> (string \<times> int option) option"

definition redis_get :: "int \<Rightarrow> redis_store \<Rightarrow> string \<Rightarrow> string option" where
  "redis_get now r k =
     (case r k of
        None \<Rightarrow> None
      | Some (v, None) \<Rightarrow> Some v
      | Some (v, Some e) \<Rightarrow> if now < e then Some v else None)"

text \<open>
  Modelled from the spec: \<open>redis_client.set(key, value, ex=ttl, nx=True)\<close>, the atomic
  create-if-absent. The server refuses an expiry that is not positive before it looks at
  the key.
\<close>

definition redis_set_nx :: "bool \<Rightarrow> int \<Rightarrow> string \<Rightarrow> string \<Rightarrow> int option \<Rightarrow> redis_store \<Rightarrow> exn + (bool \<times> redis_store)" where
  "redis_set_nx up now k v ex r =
     (if \<not> up then Inl ConnectionError
      else case ex of
        None \<Rightarrow>
          if redis_get now r k = None then Inr (True, r(k \<mapsto> (v, None))) else Inr (False, r)
      | Some ttl \<Rightarrow>
          if ttl \<le> 0 then Inl ResponseError
          else if redis_get now r k = None then Inr (True, r(k \<mapsto> (v, Some (now + ttl))))
          else Inr (False, r))"

text \<open>
  Modelled from the spec: \<open>redis_client.eval(_CAS_DEL_SCRIPT, keys=[key], args=[token])\<close>,
  the compare-and-delete. The script of \<open>seat_lock.py\<close> is
  \<^verbatim>\<open>if redis.call('get', KEYS[1]) == ARGV[1] then return redis.call('del', KEYS[1]) else return 0 end\<close>
  and runs as one step; \<open>del\<close> returns the number of keys it removed.
\<close>

definition redis_cas_del :: "bool \<Rightarrow> int \<Rightarrow> string \<Rightarrow> string \<Rightarrow> redis_store \<Rightarrow> exn + (int \<times> redis_store)" where
  "redis_cas_del up now k token r =
     (if \<not> up then Inl ConnectionError
      else if redis_get now r k = Some token then Inr (1, r(k := None))
      else Inr (0, r))"

text \<open>Modelled from the spec: \<open>redis_client.delete(key)\<close>, the unconditional delete.\<close>

definition redis_delete :: "bool \<Rightarrow> string \<Rightarrow> redis_store \<Rightarrow> exn + redis_store" where
  "redis_delete up k r = (if \<not> up then Inl ConnectionError else Inr (r(k := None)))"

text \<open>Modelled from the spec: \<open>redis_client.exists(key)\<close>.\<close>

definition redis_exists :: "bool \<Rightarrow> int \<Rightarrow> string \<Rightarrow> redis_store \<Rightarrow> exn + bool" where
  "redis_exists up now k r =
     (if \<not> up then Inl ConnectionError else Inr (redis_get now r k \<noteq> None))"

section \<open>Seat locks (\<open>services/seat_lock.py\<close>)\<close>

text \<open>\<open>LOCK_KEY_TPL.format(trip_id=..., seat_id=...)\<close>. A booking's seat may be \<open>None\<close>.\<close>

definition lock_key :: "int \<Rightarrow> int option \<Rightarrow> string" where
  "lock_key trip_id seat_id = ''seat_lock:'' @ str_int trip_id @ '':'' @ str_opt_int seat_id"

text \<open>
  \<open>lock_seat\<close>. The token is what \<open>str(uuid4())\<close> drew for this call and \<open>now\<close> the clock;
  \<open>ttl\<close> is the request's optional field. With \<open>ttl = None\<close> the key is set without expiry
  and \<open>timedelta(seconds=None)\<close> raises afterwards. The result is the returned dict
  (\<open>token\<close>, \<open>expires_at\<close>), \<open>None\<close> when the seat is already locked, or the exception.
\<close>

definition lock_seat :: "bool \<Rightarrow> int \<Rightarrow> string \<Rightarrow> int \<Rightarrow> int \<Rightarrow> int option \<Rightarrow> redis_store \<Rightarrow> (exn + (string \<times> int) option) \<times> redis_store" where
  "lock_seat up now token trip_id seat_id ttl r =
     (case redis_set_nx up now (lock_key trip_id (Some seat_id)) token ttl r of
        Inl e \<Rightarrow> (Inl e, r)
      | Inr (ok, r') \<Rightarrow>
          if \<not> ok then (Inr None, r')
          else (case ttl of
                  None \<Rightarrow> (Inl TypeError, r')
                | Some n \<Rightarrow> (Inr (Some (token, now + n)), r')))"

text \<open>\<open>validate_and_consume_lock\<close>: any exception of the store call is caught and reads as \<open>False\<close>.\<close>

definition validate_and_consume_lock :: "bool \<Rightarrow> int \<Rightarrow> int \<Rightarrow> int \<Rightarrow> string \<Rightarrow> redis_store \<Rightarrow> bool \<times> redis_store" where
  "validate_and_consume_lock up now trip_id seat_id token r =
     (case redis_cas_del up now (lock_key trip_id (Some seat_id)) token r of
        Inl e \<Rightarrow> (False, r)
      | Inr (res, r') \<Rightarrow> (res \<noteq> 0, r'))"

text \<open>
  \<open>release_lock\<close>: without a token the key is deleted unconditionally (an exception of that
  call is not caught); with a token it is the compare-and-delete, exceptions read as \<open>False\<close>.
\<close>

definition release_lock :: "bool \<Rightarrow> int \<Rightarrow> int \<Rightarrow> int option \<Rightarrow> string option \<Rightarrow> redis_store \<Rightarrow> (exn + bool) \<times> redis_store" where
  "release_lock up now trip_id seat_id token r =
     (case token of
        None \<Rightarrow>
          (case redis_delete up (lock_key trip_id seat_id) r of
             Inl e \<Rightarrow> (Inl e, r)
           | Inr r' \<Rightarrow> (Inr True, r'))
      | Some t \<Rightarrow>
          (case redis_cas_del up now (lock_key trip_id seat_id) t r of
             Inl e \<Rightarrow> (Inr False, r)
           | Inr (res, r') \<Rightarrow> (Inr (res \<noteq> 0), r')))"

section \<open>The reservation ledger (\<open>models/models.py\<close>)\<close>

text \<open>
  The rows the handlers read and write, with the columns they touch. \<open>bookings\<close> and
  \<open>payments\<close> are kept in insertion order (\<open>.first()\<close> takes the first match). The table
  \<open>trips\<close> is keyed by its primary key and holds \<open>seats_available\<close>; \<open>seats\<close> and \<open>users\<close>
  are the primary keys present, the targets of the bookings' foreign keys.
\<close>

record booking =
  b_id :: int
  b_user_id :: "int option"
  b_trip_id :: int
  b_seat_id :: "int option"
  b_status :: string
  b_booked_at :: int

record payment =
  p_id :: int
  p_booking_id :: "int option"
  p_provider :: "string option"
  p_provider_ref :: "string option"
  p_status :: string

record database =
  trips :: "int \<Rightarrow> int option"
  seats :: "int set"
  users :: "int set"
  bookings :: "booking list"
  payments :: "payment list"

record state =
  redis :: redis_store
  db :: database

text \<open>The key the database gives a new row: one above the largest in the table.\<close>

definition next_id :: "int list \<Rightarrow> int" where
  "next_id ids = foldr max ids 0 + 1"

text \<open>
  \<open>UPDATE trips SET seats_available = seats_available - 1 WHERE id = :trip_id AND
  seats_available > 0\<close>, with its row count.
\<close>

definition decrement_seats :: "int \<Rightarrow> (int \<Rightarrow> int option) \<Rightarrow> (int \<Rightarrow> int option) \<times> nat" where
  "decrement_seats trip_id ts =
     (case ts trip_id of
        None \<Rightarrow> (ts, 0)
      | Some n \<Rightarrow> if 0 < n then (ts(trip_id \<mapsto> n - 1), 1) else (ts, 0))"

text \<open>
  \<open>UPDATE trips SET seats_available = seats_available + 1 WHERE id = :trip_id\<close>: no
  condition on the counter or on the booking.
\<close>

definition increment_seats :: "int \<Rightarrow> (int \<Rightarrow> int option) \<Rightarrow> (int \<Rightarrow> int option)" where
  "increment_seats trip_id ts =
     (case ts trip_id of None \<Rightarrow> ts | Some n \<Rightarrow> ts(trip_id \<mapsto> n + 1))"

text \<open>
  The constraint \<open>uq_trip_seat\<close>, \<open>UniqueConstraint("trip_id", "seat_id")\<close>: it compares the
  two columns only, whatever the status of the row; rows with a null seat never collide.
\<close>

definition seat_taken :: "int \<Rightarrow> int \<Rightarrow> booking list \<Rightarrow> bool" where
  "seat_taken trip_id seat_id bs = list_ex (\<lambda>b. b_trip_id b = trip_id \<and> b_seat_id b = Some seat_id) bs"

text \<open>
  The \<open>INSERT\<close> of a booking, as the flush at commit sends it: the foreign keys to \<open>trips\<close>,
  \<open>seats\<close> and \<open>users\<close> and the constraint \<open>uq_trip_seat\<close> are checked by the database, each
  violation an \<open>IntegrityError\<close>.
\<close>

definition insert_booking :: "booking \<Rightarrow> database \<Rightarrow> exn + database" where
  "insert_booking b d =
     (if trips d (b_trip_id b) = None then Inl IntegrityError
      else if (case b_user_id b of None \<Rightarrow> False | Some u \<Rightarrow> u \<notin> users d) then Inl IntegrityError
      else case b_seat_id b of
        None \<Rightarrow> Inr (d\<lparr>bookings := bookings d @ [b]\<rparr>)
      | Some s \<Rightarrow>
          if s \<notin> seats d then Inl IntegrityError
          else if seat_taken (b_trip_id b) s (bookings d) then Inl IntegrityError
          else Inr (d\<lparr>bookings := bookings d @ [b]\<rparr>))"

section \<open>Confirming a booking (\<open>modules/bookings/router.py\<close>)\<close>

record confirm_request =
  cr_trip_id :: int
  cr_seat_id :: int
  cr_token :: string
  cr_user_id :: "int option"

text \<open>\<open>BookingResponse\<close>, filled from the booking row after the commit.\<close>

record booking_response =
  br_booking_id :: int
  br_trip_id :: int
  br_seat_id :: "int option"
  br_status :: string
  br_booked_at :: int

text \<open>
  What a handler answers: its response model, an \<open>HTTPException\<close> with status code and
  detail, or an exception nobody catches (the framework answers 500). The detail of the
  webhook's 500 is \<open>str(exc)\<close>, kept as the exception.
\<close>

datatype detail = Msg string | ExcText exn

datatype 'a response = Response 'a | HTTPException int detail | Raised exn

text \<open>
  The transaction of \<open>confirm_booking\<close>, from \<open>db.begin()\<close> to the commit. \<open>db_up\<close> says
  whether the database answers. The result is the exception that leaves the \<open>async with\<close>
  block, which rolls everything back, or the committed row and database.
\<close>

definition confirm_txn :: "bool \<Rightarrow> int \<Rightarrow> confirm_request \<Rightarrow> database \<Rightarrow> (booking_response response) + (booking \<times> database)" where
  "confirm_txn db_up now req d =
     (if \<not> db_up then Inl (Raised DBAPIError)
      else case decrement_seats (cr_trip_id req) (trips d) of
        (ts, rowcount) \<Rightarrow>
          if rowcount = 0 then Inl (HTTPException 409 (Msg ''No seats available''))
          else
            (let b = \<lparr>b_id = next_id (map b_id (bookings d)), b_user_id = cr_user_id req,
                       b_trip_id = cr_trip_id req, b_seat_id = Some (cr_seat_id req),
                       b_status = ''confirmed'', b_booked_at = now\<rparr>
             in case insert_booking b (d\<lparr>trips := ts\<rparr>) of
                  Inl e \<Rightarrow> Inl (Raised e)
                | Inr d' \<Rightarrow> Inr (b, d')))"

text \<open>
  The second half of \<open>confirm_booking\<close>, after the lock was consumed: the transaction, the
  \<open>except IntegrityError\<close> around it, and the response. On every error the database is the
  one before the transaction.
\<close>

definition confirm_commit :: "bool \<Rightarrow> int \<Rightarrow> confirm_request \<Rightarrow> database \<Rightarrow> booking_response response \<times> database" where
  "confirm_commit db_up now req d =
     (case confirm_txn db_up now req d of
        Inl (Raised IntegrityError) \<Rightarrow> (HTTPException 409 (Msg ''Seat already booked''), d)
      | Inl other \<Rightarrow> (other, d)
      | Inr (b, d') \<Rightarrow>
          (Response \<lparr>br_booking_id = b_id b, br_trip_id = b_trip_id b, br_seat_id = b_seat_id b,
                      br_status = b_status b, br_booked_at = b_booked_at b\<rparr>, d'))"

text \<open>\<open>confirm_booking\<close>: consume the lock, then the transaction.\<close>

definition confirm_booking :: "bool \<Rightarrow> bool \<Rightarrow> int \<Rightarrow> confirm_request \<Rightarrow> state \<Rightarrow> booking_response response \<times> state" where
  "confirm_booking redis_up db_up now req st =
     (case validate_and_consume_lock redis_up now (cr_trip_id req) (cr_seat_id req) (cr_token req) (redis st) of
        (ok, r') \<Rightarrow>
          if \<not> ok then (HTTPException 409 (Msg ''Invalid or expired lock token''), st\<lparr>redis := r'\<rparr>)
          else (case confirm_commit db_up now req (db st) of
                  (resp, d') \<Rightarrow> (resp, \<lparr>redis = r', db = d'\<rparr>)))"

section \<open>Payment providers (\<open>services/payment_gateway.py\<close>)\<close>

record settings =
  FLUTTERWAVE_SECRET :: string
  MTN_SECRET :: string
  AIRTEL_SECRET :: string

datatype adapter = FlutterwaveAdapter | MTNAdapter | AirtelAdapter

text \<open>\<open>get_adapter\<close>: \<open>ADAPTERS.get(name.lower())\<close>; \<open>None\<close> stands for the \<open>PaymentError\<close> it raises.\<close>

definition get_adapter :: "string \<Rightarrow> adapter option" where
  "get_adapter name =
     (let n = py_lower name in
      if n = ''flutterwave'' then Some FlutterwaveAdapter
      else if n = ''mtn'' then Some MTNAdapter
      else if n = ''airtel'' then Some AirtelAdapter
      else None)"

fun get_secret :: "settings \<Rightarrow> adapter \<Rightarrow> string" where
  "get_secret cfg FlutterwaveAdapter = FLUTTERWAVE_SECRET cfg"
| "get_secret cfg MTNAdapter = MTN_SECRET cfg"
| "get_secret cfg AirtelAdapter = AIRTEL_SECRET cfg"

text \<open>
  A webhook request. \<open>wr_hmac_matches\<close> is the outcome of \<open>hmac.compare_digest\<close>: whether the
  signature header equals the HMAC-SHA256 of the raw body under the adapter's secret.
  \<open>wr_json\<close> is the body parsed by \<open>request.json()\<close>, \<open>None\<close> when it does not parse.
\<close>

record webhook_request =
  wr_hmac_matches :: bool
  wr_json :: "json option"

text \<open>\<open>BaseAdapter.verify_signature\<close>: an empty secret verifies nothing.\<close>

definition verify_signature :: "settings \<Rightarrow> adapter \<Rightarrow> webhook_request \<Rightarrow> bool" where
  "verify_signature cfg ad request =
     (if get_secret cfg ad = [] then False else wr_hmac_matches request)"

text \<open>\<open>IDEMPOTENCY_KEY_TPL.format(provider=..., event_id=...)\<close>.\<close>

definition idempotency_key :: "string \<Rightarrow> string \<Rightarrow> string" where
  "idempotency_key provider event_id = ''payment_webhook:'' @ provider @ '':'' @ event_id"

text \<open>\<open>mark_event_processed\<close>, with its default retention of 24 hours.\<close>

definition mark_event_processed :: "bool \<Rightarrow> int \<Rightarrow> string \<Rightarrow> string \<Rightarrow> redis_store \<Rightarrow> exn + (bool \<times> redis_store)" where
  "mark_event_processed up now provider event_id r =
     redis_set_nx up now (idempotency_key provider event_id) ''1'' (Some (60 * 60 * 24)) r"

definition is_event_processed :: "bool \<Rightarrow> int \<Rightarrow> string \<Rightarrow> string \<Rightarrow> redis_store \<Rightarrow> exn + bool" where
  "is_event_processed up now provider event_id r =
     redis_exists up now (idempotency_key provider event_id) r"

section \<open>The payment webhook (\<open>modules/payments/router.py\<close>)\<close>

text \<open>
  The event id, lines 63 to 66: the first truthy of the four top-level fields, else of
  \<open>data.id\<close> and \<open>data.tx_ref\<close>. \<open>payload.get("data", {})\<close> must be a dict for the second
  lookup, or \<open>.get\<close> raises.
\<close>

definition get_data_or_empty :: "(string \<times> json) list \<Rightarrow> json" where
  "get_data_or_empty payload = (case map_of payload ''data'' of None \<Rightarrow> JObj [] | Some v \<Rightarrow> v)"

definition extract_event_id :: "(string \<times> json) list \<Rightarrow> exn + json" where
  "extract_event_id payload =
     (let event_id =
            py_or (py_or (py_or (dict_get payload ''id'') (dict_get payload ''event_id''))
                         (dict_get payload ''tx_id''))
                  (dict_get payload ''transaction_id'')
      in if truthy event_id then Inr event_id
         else (case get_data_or_empty payload of
                 JObj data \<Rightarrow> Inr (py_or (dict_get data ''id'') (dict_get data ''tx_ref''))
               | _ \<Rightarrow> Inl AttributeError))"

text \<open>
  The normalisation, lines 77 to 90: the status and the provider reference as the payload
  holds them (the amount is read too, and only copied).
\<close>

definition normalize :: "string \<Rightarrow> (string \<times> json) list \<Rightarrow> exn + (json \<times> json)" where
  "normalize provider payload =
     (if py_lower provider = ''flutterwave'' then
        (case get_data_or_empty payload of
           JObj data \<Rightarrow>
             Inr (dict_get data ''status'', py_or (dict_get data ''tx_ref'') (dict_get data ''flw_ref''))
         | _ \<Rightarrow> Inl AttributeError)
      else
        (case py_or (dict_get payload ''data'') (JObj payload) of
           JObj data \<Rightarrow>
             Inr (py_or (dict_get data ''status'') (dict_get data ''transaction_status''),
                  py_or (dict_get data ''transaction_id'') (dict_get data ''tx_ref''))
         | _ \<Rightarrow> Inl AttributeError))"

text \<open>
  The value bound to \<open>Payment.provider_ref == provider_ref\<close>: \<open>None\<close> selects the rows whose
  reference is null, a string the rows that hold it; the driver refuses any other value
  for the text column.
\<close>

definition ref_param :: "json \<Rightarrow> exn + string option" where
  "ref_param j = (case j of JNull \<Rightarrow> Inr None | JStr s \<Rightarrow> Inr (Some s) | _ \<Rightarrow> Inl DBAPIError)"

text \<open>
  \<open>(status_str or '').lower()\<close> needs a string: the result is the truthy status, \<open>None\<close> for a
  falsy one, or the \<open>AttributeError\<close> of a truthy value without \<open>.lower\<close>.
\<close>

definition status_text :: "json \<Rightarrow> exn + string option" where
  "status_text j =
     (if \<not> truthy j then Inr None
      else case j of JStr s \<Rightarrow> Inr (Some s) | _ \<Rightarrow> Inl AttributeError)"

definition success_statuses :: "string list" where
  "success_statuses = [''successful'', ''success'', ''paid'', ''completed'']"

definition failed_statuses :: "string list" where
  "failed_statuses = [''failed'', ''failed_attempt'', ''error'', ''declined'', ''cancelled'']"

text \<open>
  \<open>if pay.booking_id:\<close> and the \<open>SELECT\<close> by primary key: a null or zero booking id locates
  nothing.
\<close>

definition locate_booking :: "payment \<Rightarrow> database \<Rightarrow> booking option" where
  "locate_booking pay d =
     (case p_booking_id pay of
        None \<Rightarrow> None
      | Some bid \<Rightarrow> if bid = 0 then None else find (\<lambda>b. b_id b = bid) (bookings d))"

definition set_booking_status :: "int \<Rightarrow> string \<Rightarrow> database \<Rightarrow> database" where
  "set_booking_status bid s d =
     d\<lparr>bookings := map (\<lambda>b. if b_id b = bid then b\<lparr>b_status := s\<rparr> else b) (bookings d)\<rparr>"

definition set_payment_status :: "int \<Rightarrow> string \<Rightarrow> database \<Rightarrow> database" where
  "set_payment_status pid s d =
     d\<lparr>payments := map (\<lambda>p. if p_id p = pid then p\<lparr>p_status := s\<rparr> else p) (payments d)\<rparr>"

text \<open>
  The environment of one webhook call: the clock, and for each store call whether it goes
  through (the two idempotency calls, the lock release, the database).
\<close>

record webhook_env =
  w_now :: int
  w_redis_up :: bool
  w_release_up :: bool
  w_db_up :: bool

text \<open>
  The failed branch once the booking is located, lines 142 to 156: the status is set to
  cancelled whatever it was, the counter is incremented when \<open>booking.trip_id\<close> is truthy,
  and the lock is released without a token, any exception of the release swallowed.
\<close>

definition cancel_booking :: "webhook_env \<Rightarrow> booking \<Rightarrow> state \<Rightarrow> state" where
  "cancel_booking env b st =
     (let d1 = set_booking_status (b_id b) ''cancelled'' (db st);
          d2 = (if b_trip_id b \<noteq> 0 then d1\<lparr>trips := increment_seats (b_trip_id b) (trips d1)\<rparr> else d1)
      in case release_lock (w_release_up env) (w_now env) (b_trip_id b) (b_seat_id b) None (redis st) of
           (_, r') \<Rightarrow> \<lparr>redis = r', db = d2\<rparr>)"

text \<open>
  The transaction of the webhook, lines 99 to 161, on the normalised status and reference.
  The result is the exception that leaves the block (everything of the database rolled
  back) or the state after the commit. A payment that is not found is created with
  \<open>booking_id=None\<close>; no booking is located through it, and the database refuses the row
  when the commit flushes it (the column is \<open>nullable=False\<close>). A status longer than the
  column's 50 characters is refused at the flush; such a status is in neither list. The
  handler catches every exception of the block alike.
\<close>

definition webhook_txn :: "webhook_env \<Rightarrow> json \<Rightarrow> json \<Rightarrow> state \<Rightarrow> exn + state" where
  "webhook_txn env status_str provider_ref st =
     (if \<not> w_db_up env then Inl DBAPIError
      else case ref_param provider_ref of
        Inl e \<Rightarrow> Inl e
      | Inr ref \<Rightarrow>
          (case status_text status_str of
             Inl e \<Rightarrow> Inl e
           | Inr s \<Rightarrow>
               (case find (\<lambda>p. p_provider_ref p = ref) (payments (db st)) of
                  None \<Rightarrow> Inl DBAPIError
                | Some pay \<Rightarrow>
                    (let new_status = (case s of None \<Rightarrow> p_status pay | Some t \<Rightarrow> t);
                         lcstatus = py_lower (case s of None \<Rightarrow> [] | Some t \<Rightarrow> t);
                         st1 = st\<lparr>db := set_payment_status (p_id pay) new_status (db st)\<rparr>
                     in if lcstatus \<in> set success_statuses then
                          (case locate_booking pay (db st1) of
                             None \<Rightarrow> Inr st1
                           | Some b \<Rightarrow> Inr (st1\<lparr>db := set_booking_status (b_id b) ''paid'' (db st1)\<rparr>))
                        else if lcstatus \<in> set failed_statuses then
                          (case locate_booking pay (db st1) of
                             None \<Rightarrow> Inr st1
                           | Some b \<Rightarrow> Inr (cancel_booking env b st1))
                        else if 50 < length new_status then Inl DBAPIError
                        else Inr st1))))"

text \<open>The acknowledgement \<open>WebhookAck(received=...)\<close>.\<close>

datatype webhook_ack = WebhookAck bool

text \<open>
  The head of \<open>payment_webhook\<close>, lines 46 to 69: adapter, signature, parsing and event id.
  It changes nothing; it gives the early answer, or the payload and \<open>str(event_id)\<close>.
\<close>

definition webhook_event :: "(json \<Rightarrow> string) \<Rightarrow> settings \<Rightarrow> string \<Rightarrow> webhook_request \<Rightarrow> (webhook_ack response) + ((string \<times> json) list \<times> string)" where
  "webhook_event repr cfg provider request =
     (case get_adapter provider of
        None \<Rightarrow> Inl (Raised PaymentError)
      | Some ad \<Rightarrow>
          if \<not> verify_signature cfg ad request then Inl (HTTPException 400 (Msg ''Invalid signature''))
          else (case (case wr_json request of None \<Rightarrow> JObj [] | Some j \<Rightarrow> j) of
                  JObj payload \<Rightarrow>
                    (case extract_event_id payload of
                       Inl e \<Rightarrow> Inl (Raised e)
                     | Inr event_id \<Rightarrow>
                         if \<not> truthy event_id
                         then Inl (HTTPException 400 (Msg ''Missing event id for idempotency''))
                         else Inr (payload, py_str repr event_id))
                | _ \<Rightarrow> Inl (Raised AttributeError)))"

text \<open>
  The body of \<open>payment_webhook\<close> after the replay check, lines 76 to 167: the normalisation,
  the marker (the atomic test-and-set), the transaction. When the marker was already set
  by another delivery the answer is the acknowledgement and nothing changes. When the
  transaction raises, the database is the one before it and the marker stays.
\<close>

definition webhook_claim :: "webhook_env \<Rightarrow> string \<Rightarrow> (string \<times> json) list \<Rightarrow> string \<Rightarrow> state \<Rightarrow> webhook_ack response \<times> state" where
  "webhook_claim env provider payload event_id st =
     (case normalize provider payload of
        Inl e \<Rightarrow> (Raised e, st)
      | Inr (status_str, provider_ref) \<Rightarrow>
          (case mark_event_processed (w_redis_up env) (w_now env) provider event_id (redis st) of
             Inl e \<Rightarrow> (Raised e, st)
           | Inr (added, r') \<Rightarrow>
               if \<not> added then (Response (WebhookAck True), st\<lparr>redis := r'\<rparr>)
               else (case webhook_txn env status_str provider_ref (st\<lparr>redis := r'\<rparr>) of
                       Inl e \<Rightarrow> (HTTPException 500 (ExcText e), st\<lparr>redis := r'\<rparr>)
                     | Inr st' \<Rightarrow> (Response (WebhookAck True), st'))))"

text \<open>The replay check, lines 71 to 74, and the body after it.\<close>

definition webhook_process :: "webhook_env \<Rightarrow> string \<Rightarrow> (string \<times> json) list \<Rightarrow> string \<Rightarrow> state \<Rightarrow> webhook_ack response \<times> state" where
  "webhook_process env provider payload event_id st =
     (case is_event_processed (w_redis_up env) (w_now env) provider event_id (redis st) of
        Inl e \<Rightarrow> (Raised e, st)
      | Inr processed \<Rightarrow>
          if processed then (Response (WebhookAck True), st)
          else webhook_claim env provider payload event_id st)"

definition payment_webhook :: "(json \<Rightarrow> string) \<Rightarrow> settings \<Rightarrow> webhook_env \<Rightarrow> string \<Rightarrow> webhook_request \<Rightarrow> state \<Rightarrow> webhook_ack response \<times> state" where
  "payment_webhook repr cfg env provider request st =
     (case webhook_event repr cfg provider request of
        Inl answer \<Rightarrow> (answer, st)
      | Inr (payload, event_id) \<Rightarrow> webhook_process env provider payload event_id st)"

text \<open>
  \<open>initiate_payment\<close>: the adapter returns a fresh reference (\<open>provider_ref\<close> here, the
  prefix and the \<open>uuid4\<close> it drew), and a payment row with status initiated is inserted. The
  foreign key to \<open>bookings\<close> and the unique reference are checked by the database; an
  \<open>IntegrityError\<close> is answered with 500.
\<close>

definition initiate_payment :: "string \<Rightarrow> string \<Rightarrow> int \<Rightarrow> database \<Rightarrow> string response \<times> database" where
  "initiate_payment provider provider_ref booking_id d =
     (case get_adapter provider of
        None \<Rightarrow> (Raised PaymentError, d)
      | Some ad \<Rightarrow>
          if list_ex (\<lambda>b. b_id b = booking_id) (bookings d)
             \<and> \<not> list_ex (\<lambda>p. p_provider_ref p = Some provider_ref) (payments d)
          then (Response provider_ref,
                d\<lparr>payments := payments d @
                     [\<lparr>p_id = next_id (map p_id (payments d)), p_booking_id = Some booking_id,
                       p_provider = Some provider, p_provider_ref = Some provider_ref,
                       p_status = ''initiated''\<rparr>]\<rparr>)
          else (HTTPException 500 (Msg ''Unable to create payment record''), d))"

section \<open>Runs of several calls\<close>




text \<open>
  The transactions the handlers commit on the ledger, with any arguments: every database
  state the service reaches is reached by a sequence of them.
\<close>

datatype ledger_tx =
    ConfirmTx bool int confirm_request
  | WebhookTx webhook_env json json
  | InitiateTx string string int

fun apply_tx :: "ledger_tx \<Rightarrow> state \<Rightarrow> state" where
  "apply_tx (ConfirmTx db_up now req) st = st\<lparr>db := snd (confirm_commit db_up now req (db st))\<rparr>"
| "apply_tx (WebhookTx env status_str provider_ref) st =
     (case webhook_txn env status_str provider_ref st of Inl e \<Rightarrow> st | Inr st' \<Rightarrow> st')"
| "apply_tx (InitiateTx provider provider_ref booking_id) st =
     st\<lparr>db := snd (initiate_payment provider provider_ref booking_id (db st))\<rparr>"

fun run_txs :: "ledger_tx list \<Rightarrow> state \<Rightarrow> state" where
  "run_txs [] st = st"
| "run_txs (tx # txs) st = run_txs txs (apply_tx tx st)"

text \<open>The bookings of a seat that are confirmed or paid.\<close>

definition active_bookings :: "int \<Rightarrow> int \<Rightarrow> database \<Rightarrow> booking list" where
  "active_bookings trip_id seat_id d =
     filter (\<lambda>b. b_trip_id b = trip_id \<and> b_seat_id b = Some seat_id \<and>
                  (b_status b = ''confirmed'' \<or> b_status b = ''paid'')) (bookings d)"

text \<open>The table satisfies \<open>uq_trip_seat\<close>: no two rows with the same trip and non-null seat.\<close>

definition uq_trip_seat :: "booking list \<Rightarrow> bool" where
  "uq_trip_seat bs =
     distinct (map (\<lambda>b. (b_trip_id b, b_seat_id b)) (filter (\<lambda>b. b_seat_id b \<noteq> None) bs))"

text \<open>
  Racing \<open>confirm_booking\<close> calls. A call suspends at its two awaits, the store command that
  consumes the lock and the transaction. The store runs the script as one step, and the
  conditioned update locks the trip's row until the commit, so the transactions on one
  trip run one after the other: each of the two steps is atomic, and a schedule says which
  caller moves next and when. Store and database answer throughout.
\<close>

datatype progress = Waiting | Consumed | Finished "booking_response response"

definition race_step :: "confirm_request list \<Rightarrow> nat \<times> int \<Rightarrow> progress list \<times> state \<Rightarrow> progress list \<times> state" where
  "race_step reqs ev cfg =
     (case ev of (i, now) \<Rightarrow>
      case cfg of (ps, st) \<Rightarrow>
        if length ps \<le> i \<or> length reqs \<le> i then cfg
        else (case ps ! i of
                Waiting \<Rightarrow>
                  (case validate_and_consume_lock True now (cr_trip_id (reqs ! i)) (cr_seat_id (reqs ! i))
                          (cr_token (reqs ! i)) (redis st) of
                     (ok, r') \<Rightarrow>
                       if ok then (ps[i := Consumed], st\<lparr>redis := r'\<rparr>)
                       else (ps[i := Finished (HTTPException 409 (Msg ''Invalid or expired lock token''))],
                             st\<lparr>redis := r'\<rparr>))
              | Consumed \<Rightarrow>
                  (case confirm_commit True now (reqs ! i) (db st) of
                     (resp, d') \<Rightarrow> (ps[i := Finished resp], st\<lparr>db := d'\<rparr>))
              | Finished resp \<Rightarrow> cfg))"

fun run_race :: "confirm_request list \<Rightarrow> (nat \<times> int) list \<Rightarrow> progress list \<times> state \<Rightarrow> progress list \<times> state" where
  "run_race reqs [] cfg = cfg"
| "run_race reqs (ev # evs) cfg = run_race reqs evs (race_step reqs ev cfg)"

fun is_finished :: "progress \<Rightarrow> bool" where
  "is_finished (Finished resp) = True"
| "is_finished p = False"

text \<open>A stored key lives at \<open>now\<close>.\<close>

definition lives :: "int option \<Rightarrow> int \<Rightarrow> bool" where
  "lives expiry now = (case expiry of None \<Rightarrow> True | Some e \<Rightarrow> now < e)"

text \<open>Later deliveries of one webhook request, each in its own environment.\<close>

fun redeliver :: "(json \<Rightarrow> string) \<Rightarrow> settings \<Rightarrow> string \<Rightarrow> webhook_request \<Rightarrow> webhook_env list \<Rightarrow> state \<Rightarrow> webhook_ack response list \<times> state" where
  "redeliver repr cfg provider request [] st = ([], st)"
| "redeliver repr cfg provider request (env # envs) st =
     (case payment_webhook repr cfg env provider request st of
        (answer, st') \<Rightarrow>
          (case redeliver repr cfg provider request envs st' of
             (answers, st'') \<Rightarrow> (answer # answers, st'')))"

section \<open>Predicates of the proofs\<close>


text \<open>The answer to a caller whose lock token is gone or does not match.\<close>

abbreviation expired :: "booking_response response" where
  "expired \<equiv> HTTPException 409 (Msg ''Invalid or expired lock token'')"


text \<open>
  The three phases of a race for one seat that starts with the lock held under \<open>tok\<close>:
  the lock is still held and only callers with another token have finished; the caller
  \<open>w\<close> has consumed the lock and not yet committed; \<open>w\<close> has committed.
\<close>

definition phase_held :: "confirm_request list \<Rightarrow> string \<Rightarrow> string \<Rightarrow> int option \<Rightarrow> database \<Rightarrow> progress list \<times> state \<Rightarrow> bool" where
  "phase_held reqs tok key expiry d0 cfg =
     (case cfg of (ps, st) \<Rightarrow>
        length ps = length reqs \<and> redis st key = Some (tok, expiry) \<and> db st = d0 \<and>
        (\<forall>i < length reqs. ps ! i = Waiting \<or> (ps ! i = Finished expired \<and> cr_token (reqs ! i) \<noteq> tok)))"

definition phase_consumed :: "confirm_request list \<Rightarrow> string \<Rightarrow> database \<Rightarrow> nat \<Rightarrow> progress list \<times> state \<Rightarrow> bool" where
  "phase_consumed reqs key d0 w cfg =
     (case cfg of (ps, st) \<Rightarrow>
        length ps = length reqs \<and> w < length reqs \<and> redis st key = None \<and> db st = d0 \<and>
        ps ! w = Consumed \<and>
        (\<forall>i < length reqs. i \<noteq> w \<longrightarrow> ps ! i = Waiting \<or> ps ! i = Finished expired))"

definition phase_committed :: "confirm_request list \<Rightarrow> string \<Rightarrow> nat \<Rightarrow> progress list \<times> state \<Rightarrow> bool" where
  "phase_committed reqs key w cfg =
     (case cfg of (ps, st) \<Rightarrow>
        length ps = length reqs \<and> w < length reqs \<and> redis st key = None \<and>
        (\<exists>b. ps ! w = Finished (Response b) \<and> br_status b = ''confirmed'') \<and>
        (\<forall>i < length reqs. i \<noteq> w \<longrightarrow> ps ! i = Waiting \<or> ps ! i = Finished expired))"

definition race_inv :: "confirm_request list \<Rightarrow> string \<Rightarrow> string \<Rightarrow> int option \<Rightarrow> database \<Rightarrow> progress list \<times> state \<Rightarrow> bool" where
  "race_inv reqs tok key expiry d0 cfg =
     (phase_held reqs tok key expiry d0 cfg
      \<or> (\<exists>w. phase_consumed reqs key d0 w cfg)
      \<or> (\<exists>w. phase_committed reqs key w cfg))"

section \<open>A trip with one seat\<close>

text \<open>
  The data of the end-to-end scenario: trip 1 with one seat available, seat 10, user 7, and
  the Airtel adapter configured. Client A locks the seat (ttl 60) and confirms; a payment is
  initiated; the provider reports \<open>failed\<close>; client B locks and confirms the same seat.
\<close>

definition demo_settings :: settings where
  "demo_settings = \<lparr>FLUTTERWAVE_SECRET = [], MTN_SECRET = [], AIRTEL_SECRET = ''test_airtel_secret''\<rparr>"

definition demo_state :: state where
  "demo_state =
     \<lparr>redis = Map.empty,
      db = \<lparr>trips = Map.empty(1 \<mapsto> 1), seats = {10}, users = {7}, bookings = [], payments = []\<rparr>\<rparr>"

definition demo_env :: "int \<Rightarrow> webhook_env" where
  "demo_env now = \<lparr>w_now = now, w_redis_up = True, w_release_up = True, w_db_up = True\<rparr>"


definition failed_payload :: "string \<Rightarrow> (string \<times> json) list" where
  "failed_payload event_id =
     [(''id'', JStr event_id),
      (''data'', JObj [(''transaction_id'', JStr ''airtel_ref1''),
                       (''status'', JStr ''failed''),
                       (''amount'', JNum 50)])]"

definition failed_event :: "string \<Rightarrow> webhook_request" where
  "failed_event event_id = \<lparr>wr_hmac_matches = True, wr_json = Some (JObj (failed_payload event_id))\<rparr>"

definition confirm_by :: "string \<Rightarrow> confirm_request" where
  "confirm_by token = \<lparr>cr_trip_id = 1, cr_seat_id = 10, cr_token = token, cr_user_id = Some 7\<rparr>"

definition after_lock_a :: state where
  "after_lock_a = demo_state\<lparr>redis := snd (lock_seat True 0 ''token-a'' 1 10 (Some 60) (redis demo_state))\<rparr>"







definition race_requests :: "confirm_request list" where
  "race_requests = [confirm_by ''token-a'', confirm_by ''token-a'', confirm_by ''stale'']"

definition race_schedule :: "(nat \<times> int) list" where
  "race_schedule = [(2, 1), (1, 1), (0, 2), (1, 3)]"

section \<open>Seat locks: compare-and-delete and mutual exclusion\<close>

lemma lock_key_eval_1_10: "lock_key 1 (Some 10) = ''seat_lock:1:10''"
  by code_simp

text \<open>
  Claim C8. For every trip, seat and token, \<open>validate_and_consume_lock\<close> compares the stored
  lock value with the token and deletes the key only on a match, in the one store step of
  the script. It answers \<open>True\<close> exactly when the store answers and the live value equals the
  token; then the key, and nothing else, is gone. Otherwise (key absent, expired, or held
  with another token) it answers \<open>False\<close> and the store is untouched, so a live lock with a
  different token is still there.
\<close>

theorem validate_and_consume_lock_compare_and_delete:
  assumes "validate_and_consume_lock up now trip_id seat_id token r = (ok, r')"
  shows "(ok \<longleftrightarrow> up \<and> redis_get now r (lock_key trip_id (Some seat_id)) = Some token)
       \<and> (ok \<longrightarrow> r' = r(lock_key trip_id (Some seat_id) := None))
       \<and> (\<not> ok \<longrightarrow> r' = r)
       \<and> (\<forall>other. redis_get now r (lock_key trip_id (Some seat_id)) = Some other \<and> other \<noteq> token
             \<longrightarrow> \<not> ok \<and> redis_get now r' (lock_key trip_id (Some seat_id)) = Some other)"
  using assms
  by (auto simp add: validate_and_consume_lock_def redis_cas_del_def split: if_splits)

theorem validate_and_consume_lock_compare_and_delete_witness:
  "fst (validate_and_consume_lock True 5 1 10 ''stale'' (Map.empty(''seat_lock:1:10'' \<mapsto> (''fresh'', Some 60)))) = False
   \<and> redis_get 5 (snd (validate_and_consume_lock True 5 1 10 ''stale'' (Map.empty(''seat_lock:1:10'' \<mapsto> (''fresh'', Some 60))))) ''seat_lock:1:10'' = Some ''fresh''"
proof -
  let ?r = "Map.empty(''seat_lock:1:10'' \<mapsto> (''fresh'', Some (60::int)))"
  obtain ok r' where run: "validate_and_consume_lock True 5 1 10 ''stale'' ?r = (ok, r')"
    by (cases "validate_and_consume_lock True 5 1 10 ''stale'' ?r")
  have held: "redis_get 5 ?r (lock_key 1 (Some 10)) = Some ''fresh''"
    by (simp add: lock_key_eval_1_10 redis_get_def)
  from validate_and_consume_lock_compare_and_delete [OF run] held
  have "\<not> ok \<and> redis_get 5 r' (lock_key 1 (Some 10)) = Some ''fresh''"
    by simp
  with run show ?thesis by (simp add: lock_key_eval_1_10)
qed





lemma consume_absent:
  assumes "r (lock_key t (Some s)) = None"
  shows "validate_and_consume_lock True now t s token r = (False, r)"
  using assms by (simp add: validate_and_consume_lock_def redis_cas_del_def redis_get_def)

lemma consume_held:
  assumes "r (lock_key t (Some s)) = Some (tok, expiry)" and "lives expiry now"
  shows "validate_and_consume_lock True now t s token r
           = (if token = tok then (True, r(lock_key t (Some s) := None)) else (False, r))"
  using assms
  by (auto simp add: validate_and_consume_lock_def redis_cas_del_def redis_get_def lives_def split: option.splits)

section \<open>Ledger updates\<close>

lemma lock_key_neq_idempotency_key [simp]:
  "lock_key t s \<noteq> idempotency_key p e" "idempotency_key p e \<noteq> lock_key t s"
  by (simp_all add: lock_key_def idempotency_key_def)

lemma set_booking_status_simps [simp]:
  "trips (set_booking_status bid s d) = trips d"
  "payments (set_booking_status bid s d) = payments d"
  "seats (set_booking_status bid s d) = seats d"
  "users (set_booking_status bid s d) = users d"
  "bookings (set_booking_status bid s d) = map (\<lambda>b. if b_id b = bid then b\<lparr>b_status := s\<rparr> else b) (bookings d)"
  by (simp_all add: set_booking_status_def)

lemma set_payment_status_simps [simp]:
  "trips (set_payment_status pid s d) = trips d"
  "bookings (set_payment_status pid s d) = bookings d"
  "seats (set_payment_status pid s d) = seats d"
  "users (set_payment_status pid s d) = users d"
  by (simp_all add: set_payment_status_def)

lemma locate_booking_set_payment_status [simp]:
  "locate_booking pay (set_payment_status pid s d) = locate_booking pay d"
  by (simp add: locate_booking_def split: option.splits)

lemma cancel_booking_marker [simp]:
  "redis (cancel_booking env b st) (idempotency_key p e) = redis st (idempotency_key p e)"
  by (simp add: cancel_booking_def Let_def release_lock_def redis_delete_def split: prod.splits)

lemma cancel_booking_bookings:
  "bookings (db (cancel_booking env b st))
     = map (\<lambda>x. if b_id x = b_id b then x\<lparr>b_status := ''cancelled''\<rparr> else x) (bookings (db st))"
  by (simp add: cancel_booking_def Let_def set_booking_status_def split: prod.splits)

lemma webhook_txn_shape:
  assumes "webhook_txn env status_str provider_ref st = Inr st'"
    and "\<And>pid s. P (st\<lparr>db := set_payment_status pid s (db st)\<rparr>)"
    and "\<And>pid s bid. P (st\<lparr>db := set_booking_status bid ''paid'' (set_payment_status pid s (db st))\<rparr>)"
    and "\<And>pid s b. P (cancel_booking env b (st\<lparr>db := set_payment_status pid s (db st)\<rparr>))"
  shows "P st'"
  using assms
  by (auto simp add: webhook_txn_def Let_def split: if_splits sum.splits option.splits)

lemma decrement_seats_cases:
  "decrement_seats t ts = (ts, 0) \<and> (\<forall>n. ts t = Some n \<longrightarrow> n \<le> 0)
   \<or> (\<exists>n. 0 < n \<and> ts t = Some n \<and> decrement_seats t ts = (ts(t \<mapsto> n - 1), 1))"
  by (auto simp add: decrement_seats_def split: option.splits)

lemma insert_booking_Inr:
  "insert_booking b d = Inr d' \<Longrightarrow> d' = d\<lparr>bookings := bookings d @ [b]\<rparr>"
  by (auto simp add: insert_booking_def split: if_splits option.splits)

lemma confirm_txn_Inr:
  assumes "confirm_txn db_up now req d = Inr (b, d')"
  shows "\<exists>n. 0 < n \<and> trips d (cr_trip_id req) = Some n
           \<and> d' = d\<lparr>trips := (trips d)(cr_trip_id req \<mapsto> n - 1), bookings := bookings d @ [b]\<rparr>
           \<and> b = \<lparr>b_id = next_id (map b_id (bookings d)), b_user_id = cr_user_id req,
                   b_trip_id = cr_trip_id req, b_seat_id = Some (cr_seat_id req),
                   b_status = ''confirmed'', b_booked_at = now\<rparr>
           \<and> \<not> seat_taken (cr_trip_id req) (cr_seat_id req) (bookings d)"
proof -
  from assms have up: db_up by (auto simp add: confirm_txn_def split: if_splits)
  from decrement_seats_cases [of "cr_trip_id req" "trips d"] show ?thesis
  proof
    assume "decrement_seats (cr_trip_id req) (trips d) = (trips d, 0) \<and> (\<forall>n. trips d (cr_trip_id req) = Some n \<longrightarrow> n \<le> 0)"
    with assms up show ?thesis by (simp add: confirm_txn_def)
  next
    assume "\<exists>n. 0 < n \<and> trips d (cr_trip_id req) = Some n \<and> decrement_seats (cr_trip_id req) (trips d) = ((trips d)(cr_trip_id req \<mapsto> n - 1), 1)"
    then obtain n where n: "0 < n" "trips d (cr_trip_id req) = Some n"
      "decrement_seats (cr_trip_id req) (trips d) = ((trips d)(cr_trip_id req \<mapsto> n - 1), 1)" by blast
    from assms up n show ?thesis
      by (auto simp add: confirm_txn_def Let_def insert_booking_def split: sum.splits if_splits option.splits)
  qed
qed

lemma confirm_commit_db:
  "snd (confirm_commit db_up now req d) = d
   \<or> (\<exists>n b. 0 < n \<and> trips d (cr_trip_id req) = Some n
        \<and> b_trip_id b = cr_trip_id req \<and> b_seat_id b = Some (cr_seat_id req)
        \<and> \<not> seat_taken (cr_trip_id req) (cr_seat_id req) (bookings d)
        \<and> snd (confirm_commit db_up now req d)
            = d\<lparr>trips := (trips d)(cr_trip_id req \<mapsto> n - 1), bookings := bookings d @ [b]\<rparr>)"
proof (cases "confirm_txn db_up now req d")
  case (Inl a)
  then have "snd (confirm_commit db_up now req d) = d"
    by (cases a rule: response.exhaust) (auto simp add: confirm_commit_def split: exn.splits)
  then show ?thesis by simp
next
  case (Inr p)
  obtain b d' where p: "p = (b, d')" by (cases p)
  from confirm_txn_Inr [OF Inr [unfolded p]] obtain n where n: "0 < n" "trips d (cr_trip_id req) = Some n"
    "d' = d\<lparr>trips := (trips d)(cr_trip_id req \<mapsto> n - 1), bookings := bookings d @ [b]\<rparr>"
    "b_trip_id b = cr_trip_id req" "b_seat_id b = Some (cr_seat_id req)"
    "\<not> seat_taken (cr_trip_id req) (cr_seat_id req) (bookings d)"
    by auto
  have "snd (confirm_commit db_up now req d) = d'"
    using Inr p by (simp add: confirm_commit_def)
  with n show ?thesis by blast
qed



lemma confirm_txn_commits:
  assumes "trips d (cr_trip_id req) = Some n" "0 < n"
    and "\<not> seat_taken (cr_trip_id req) (cr_seat_id req) (bookings d)"
    and "cr_seat_id req \<in> seats d"
    and "case cr_user_id req of None \<Rightarrow> True | Some u \<Rightarrow> u \<in> users d"
  shows "confirm_txn True now req d =
           Inr (\<lparr>b_id = next_id (map b_id (bookings d)), b_user_id = cr_user_id req,
                  b_trip_id = cr_trip_id req, b_seat_id = Some (cr_seat_id req),
                  b_status = ''confirmed'', b_booked_at = now\<rparr>,
                d\<lparr>trips := (trips d)(cr_trip_id req \<mapsto> n - 1),
                   bookings := bookings d @
                     [\<lparr>b_id = next_id (map b_id (bookings d)), b_user_id = cr_user_id req,
                       b_trip_id = cr_trip_id req, b_seat_id = Some (cr_seat_id req),
                       b_status = ''confirmed'', b_booked_at = now\<rparr>]\<rparr>)"
  using assms by (auto simp add: confirm_txn_def decrement_seats_def insert_booking_def Let_def split: option.splits)




section \<open>The seat counter never goes negative\<close>









section \<open>Confirmation is one transaction\<close>




section \<open>At most one booking per seat\<close>

lemma uq_trip_seat_append:
  assumes "uq_trip_seat bs" and "b_seat_id b = Some s" and "\<not> seat_taken (b_trip_id b) s bs"
  shows "uq_trip_seat (bs @ [b])"
  using assms by (auto simp add: uq_trip_seat_def seat_taken_def list_ex_iff)

lemma uq_trip_seat_status:
  "uq_trip_seat (map (\<lambda>b. if b_id b = bid then b\<lparr>b_status := s\<rparr> else b) bs) = uq_trip_seat bs"
proof -
  have "map (\<lambda>b. (b_trip_id b, b_seat_id b))
          (filter (\<lambda>b. b_seat_id b \<noteq> None) (map (\<lambda>b. if b_id b = bid then b\<lparr>b_status := s\<rparr> else b) bs))
        = map (\<lambda>b. (b_trip_id b, b_seat_id b)) (filter (\<lambda>b. b_seat_id b \<noteq> None) bs)"
    by (induction bs) auto
  then show ?thesis by (simp add: uq_trip_seat_def)
qed

lemma uq_trip_seat_at_most_one:
  assumes "uq_trip_seat bs"
  shows "length (filter (\<lambda>b. b_trip_id b = t \<and> b_seat_id b = Some s \<and> P b) bs) \<le> 1"
  using assms
proof (induction bs)
  case Nil
  then show ?case by simp
next
  case (Cons b bs)
  from Cons.prems have rest: "uq_trip_seat bs"
    by (auto simp add: uq_trip_seat_def split: if_splits)
  show ?case
  proof (cases "b_trip_id b = t \<and> b_seat_id b = Some s")
    case True
    with Cons.prems
    have "(t, Some s) \<notin> set (map (\<lambda>b. (b_trip_id b, b_seat_id b)) (filter (\<lambda>b. b_seat_id b \<noteq> None) bs))"
      by (simp add: uq_trip_seat_def)
    then have "\<forall>x \<in> set bs. \<not> (b_trip_id x = t \<and> b_seat_id x = Some s)"
      by force
    then have "filter (\<lambda>b. b_trip_id b = t \<and> b_seat_id b = Some s \<and> P b) bs = []"
      by (auto simp add: filter_empty_conv)
    then show ?thesis by simp
  next
    case False
    with Cons.IH [OF rest] show ?thesis by auto
  qed
qed

lemma confirm_commit_uq:
  assumes "uq_trip_seat (bookings d)"
  shows "uq_trip_seat (bookings (snd (confirm_commit db_up now req d)))"
proof -
  from confirm_commit_db [of db_up now req d]
  show ?thesis
  proof
    assume "snd (confirm_commit db_up now req d) = d"
    with assms show ?thesis by simp
  next
    assume "\<exists>n b. 0 < n \<and> trips d (cr_trip_id req) = Some n
        \<and> b_trip_id b = cr_trip_id req \<and> b_seat_id b = Some (cr_seat_id req)
        \<and> \<not> seat_taken (cr_trip_id req) (cr_seat_id req) (bookings d)
        \<and> snd (confirm_commit db_up now req d)
            = d\<lparr>trips := (trips d)(cr_trip_id req \<mapsto> n - 1), bookings := bookings d @ [b]\<rparr>"
    then obtain n b where b: "b_trip_id b = cr_trip_id req" "b_seat_id b = Some (cr_seat_id req)"
      "\<not> seat_taken (cr_trip_id req) (cr_seat_id req) (bookings d)"
      "snd (confirm_commit db_up now req d)
         = d\<lparr>trips := (trips d)(cr_trip_id req \<mapsto> n - 1), bookings := bookings d @ [b]\<rparr>"
      by blast
    from uq_trip_seat_append [OF assms b(2)] b(1) b(3) have "uq_trip_seat (bookings d @ [b])" by simp
    with b(4) show ?thesis by simp
  qed
qed

lemma webhook_txn_uq:
  assumes "uq_trip_seat (bookings (db st))" and "webhook_txn env status_str provider_ref st = Inr st'"
  shows "uq_trip_seat (bookings (db st'))"
  by (rule webhook_txn_shape [OF assms(2)])
     (simp_all add: assms(1) cancel_booking_bookings uq_trip_seat_status set_booking_status_def set_payment_status_def)

lemma apply_tx_uq:
  assumes "uq_trip_seat (bookings (db st))"
  shows "uq_trip_seat (bookings (db (apply_tx tx st)))"
proof (cases tx)
  case (ConfirmTx db_up now req)
  with confirm_commit_uq [OF assms] show ?thesis by simp
next
  case (WebhookTx env status_str provider_ref)
  with webhook_txn_uq [OF assms] assms show ?thesis
    by (cases "webhook_txn env status_str provider_ref st") auto
next
  case (InitiateTx provider provider_ref booking_id)
  with assms show ?thesis
    by (auto simp add: initiate_payment_def split: option.splits if_splits)
qed

lemma run_txs_uq:
  assumes "uq_trip_seat (bookings (db st))"
  shows "uq_trip_seat (bookings (db (run_txs txs st)))"
  using assms
proof (induction txs arbitrary: st)
  case Nil
  then show ?case by simp
next
  case (Cons tx txs)
  from Cons.IH [OF apply_tx_uq [OF Cons.prems]] show ?case by simp
qed

lemma race_step_uq:
  assumes "uq_trip_seat (bookings (db (snd cfg)))"
  shows "uq_trip_seat (bookings (db (snd (race_step reqs ev cfg))))"
proof -
  obtain i now where ev: "ev = (i, now)" by (cases ev)
  obtain ps st where cfg: "cfg = (ps, st)" by (cases cfg)
  have "db (snd (race_step reqs ev cfg)) = db st
        \<or> db (snd (race_step reqs ev cfg)) = snd (confirm_commit True now (reqs ! i) (db st))"
    unfolding ev cfg by (simp add: race_step_def split: progress.splits prod.splits)
  with assms confirm_commit_uq [of "db st" True now "reqs ! i"] show ?thesis
    unfolding cfg by auto
qed

lemma run_race_uq:
  assumes "uq_trip_seat (bookings (db (snd cfg)))"
  shows "uq_trip_seat (bookings (db (snd (run_race reqs sched cfg))))"
  using assms
proof (induction sched arbitrary: cfg)
  case Nil
  then show ?case by simp
next
  case (Cons ev sched)
  from Cons.IH [OF race_step_uq [OF Cons.prems]] show ?case by simp
qed

lemma race_step_is_confirm_booking:
  assumes "i < length reqs" and "length ps = length reqs" and "ps ! i = Waiting"
  shows "race_step reqs (i, now) (race_step reqs (i, now) (ps, st))
           = (ps[i := Finished (fst (confirm_booking True True now (reqs ! i) st))],
              snd (confirm_booking True True now (reqs ! i) st))"
  using assms
  by (auto simp add: race_step_def confirm_booking_def split: prod.splits)

lemma race_step_held:
  assumes inv: "phase_held reqs tok (lock_key t (Some s)) expiry d0 (ps, st)"
    and same: "\<forall>q \<in> set reqs. cr_trip_id q = t \<and> cr_seat_id q = s"
    and live: "lives expiry now"
  shows "phase_held reqs tok (lock_key t (Some s)) expiry d0 (race_step reqs (i, now) (ps, st))
       \<or> (\<exists>w. phase_consumed reqs (lock_key t (Some s)) d0 w (race_step reqs (i, now) (ps, st)))"
proof (cases "i < length reqs")
  case False
  with inv show ?thesis by (simp add: race_step_def phase_held_def)
next
  case True
  from inv have len: "length ps = length reqs"
    and held: "redis st (lock_key t (Some s)) = Some (tok, expiry)"
    and d0: "db st = d0"
    and others: "\<forall>j < length reqs. ps ! j = Waiting \<or> (ps ! j = Finished expired \<and> cr_token (reqs ! j) \<noteq> tok)"
    by (simp_all add: phase_held_def)
  from True same have q: "cr_trip_id (reqs ! i) = t" "cr_seat_id (reqs ! i) = s" by simp_all
  from others True have "ps ! i = Waiting \<or> ps ! i = Finished expired" by blast
  then show ?thesis
  proof
    assume fin: "ps ! i = Finished expired"
    with True len have "race_step reqs (i, now) (ps, st) = (ps, st)" by (simp add: race_step_def)
    with inv show ?thesis by simp
  next
    assume wait: "ps ! i = Waiting"
    show ?thesis
    proof (cases "cr_token (reqs ! i) = tok")
      case True
      with wait \<open>i < length reqs\<close> len q consume_held [where r = "redis st" and token = "cr_token (reqs ! i)", OF held live]
      have step: "race_step reqs (i, now) (ps, st)
                    = (ps[i := Consumed], st\<lparr>redis := (redis st)(lock_key t (Some s) := None)\<rparr>)"
        by (simp add: race_step_def)
      have "phase_consumed reqs (lock_key t (Some s)) d0 i
              (ps[i := Consumed], st\<lparr>redis := (redis st)(lock_key t (Some s) := None)\<rparr>)"
        using len \<open>i < length reqs\<close> d0 others by (auto simp add: phase_consumed_def)
      with step show ?thesis by auto
    next
      case False
      with wait \<open>i < length reqs\<close> len q consume_held [where r = "redis st" and token = "cr_token (reqs ! i)", OF held live]
      have step: "race_step reqs (i, now) (ps, st) = (ps[i := Finished expired], st)"
        by (simp add: race_step_def)
      have "phase_held reqs tok (lock_key t (Some s)) expiry d0 (ps[i := Finished expired], st)"
        using len \<open>i < length reqs\<close> d0 others held False
        by (auto simp add: phase_held_def nth_list_update)
      with step show ?thesis by simp
    qed
  qed
qed

lemma race_step_loser:
  assumes len: "length ps = length reqs" and i: "i < length reqs"
    and absent: "redis st (lock_key t (Some s)) = None"
    and same: "\<forall>q \<in> set reqs. cr_trip_id q = t \<and> cr_seat_id q = s"
    and pi: "ps ! i = Waiting \<or> ps ! i = Finished expired"
  shows "race_step reqs (i, now) (ps, st) = (ps[i := Finished expired], st)"
proof -
  from i same have q: "cr_trip_id (reqs ! i) = t" "cr_seat_id (reqs ! i) = s" by simp_all
  from pi show ?thesis
  proof
    assume "ps ! i = Waiting"
    with len i q consume_absent [where r = "redis st" and now = now and token = "cr_token (reqs ! i)", OF absent] show ?thesis
      by (simp add: race_step_def)
  next
    assume fin: "ps ! i = Finished expired"
    with len i have "race_step reqs (i, now) (ps, st) = (ps, st)" by (simp add: race_step_def)
    moreover from fin have "ps[i := Finished expired] = ps" by (metis list_update_id)
    ultimately show ?thesis by simp
  qed
qed

lemma race_step_consumed:
  assumes inv: "phase_consumed reqs (lock_key t (Some s)) d0 w (ps, st)"
    and same: "\<forall>q \<in> set reqs. cr_trip_id q = t \<and> cr_seat_id q = s"
    and cap: "trips d0 t = Some n" "0 < n"
    and seat: "s \<in> seats d0"
    and free: "\<not> seat_taken t s (bookings d0)"
    and users: "\<forall>q \<in> set reqs. case cr_user_id q of None \<Rightarrow> True | Some u \<Rightarrow> u \<in> users d0"
  shows "phase_consumed reqs (lock_key t (Some s)) d0 w (race_step reqs (i, now) (ps, st))
       \<or> phase_committed reqs (lock_key t (Some s)) w (race_step reqs (i, now) (ps, st))"
proof (cases "i < length reqs")
  case False
  with inv show ?thesis by (simp add: race_step_def phase_consumed_def)
next
  case True
  from inv have len: "length ps = length reqs" and w: "w < length reqs"
    and absent: "redis st (lock_key t (Some s)) = None"
    and d0: "db st = d0" and pw: "ps ! w = Consumed"
    and others: "\<forall>j < length reqs. j \<noteq> w \<longrightarrow> ps ! j = Waiting \<or> ps ! j = Finished expired"
    by (simp_all add: phase_consumed_def)
  show ?thesis
  proof (cases "i = w")
    case False
    with others True have "ps ! i = Waiting \<or> ps ! i = Finished expired" by blast
    from race_step_loser [OF len True absent same this]
    have step: "race_step reqs (i, now) (ps, st) = (ps[i := Finished expired], st)" .
    have "phase_consumed reqs (lock_key t (Some s)) d0 w (ps[i := Finished expired], st)"
      using len w absent d0 pw others False \<open>i < length reqs\<close>
      by (auto simp add: phase_consumed_def nth_list_update)
    with step show ?thesis by simp
  next
    case iw: True
    from w same have q: "cr_trip_id (reqs ! w) = t" "cr_seat_id (reqs ! w) = s" by simp_all
    from w users have u: "case cr_user_id (reqs ! w) of None \<Rightarrow> True | Some u \<Rightarrow> u \<in> users d0" by simp
    from confirm_txn_commits [of d0 "reqs ! w" n now] cap seat free q u
    obtain b d' where txn: "confirm_txn True now (reqs ! w) d0 = Inr (b, d')" and "b_status b = ''confirmed''"
      by auto
    then have "\<exists>resp d'. confirm_commit True now (reqs ! w) d0 = (Response resp, d') \<and> br_status resp = ''confirmed''"
      by (simp add: confirm_commit_def)
    then obtain resp d' where commit: "confirm_commit True now (reqs ! w) d0 = (Response resp, d')"
      and conf: "br_status resp = ''confirmed''" by blast
    from commit iw len w pw d0
    have step: "race_step reqs (i, now) (ps, st) = (ps[w := Finished (Response resp)], st\<lparr>db := d'\<rparr>)"
      by (simp add: race_step_def)
    have "phase_committed reqs (lock_key t (Some s)) w (ps[w := Finished (Response resp)], st\<lparr>db := d'\<rparr>)"
      using len w absent conf others by (auto simp add: phase_committed_def)
    with step show ?thesis by simp
  qed
qed

lemma race_step_committed:
  assumes inv: "phase_committed reqs (lock_key t (Some s)) w (ps, st)"
    and same: "\<forall>q \<in> set reqs. cr_trip_id q = t \<and> cr_seat_id q = s"
  shows "phase_committed reqs (lock_key t (Some s)) w (race_step reqs (i, now) (ps, st))"
proof (cases "i < length reqs")
  case False
  with inv show ?thesis by (simp add: race_step_def phase_committed_def)
next
  case True
  from inv have len: "length ps = length reqs" and w: "w < length reqs"
    and absent: "redis st (lock_key t (Some s)) = None"
    and pw: "\<exists>b. ps ! w = Finished (Response b) \<and> br_status b = ''confirmed''"
    and others: "\<forall>j < length reqs. j \<noteq> w \<longrightarrow> ps ! j = Waiting \<or> ps ! j = Finished expired"
    by (simp_all add: phase_committed_def)
  show ?thesis
  proof (cases "i = w")
    case False
    with others True have "ps ! i = Waiting \<or> ps ! i = Finished expired" by blast
    from race_step_loser [OF len True absent same this]
    have step: "race_step reqs (i, now) (ps, st) = (ps[i := Finished expired], st)" .
    have "phase_committed reqs (lock_key t (Some s)) w (ps[i := Finished expired], st)"
      using len w absent pw others False \<open>i < length reqs\<close>
      by (auto simp add: phase_committed_def nth_list_update)
    with step show ?thesis by simp
  next
    case True
    with pw len w have "race_step reqs (i, now) (ps, st) = (ps, st)"
      by (auto simp add: race_step_def)
    with inv show ?thesis by simp
  qed
qed

lemma run_race_inv:
  assumes same: "\<forall>q \<in> set reqs. cr_trip_id q = t \<and> cr_seat_id q = s"
    and cap: "trips d0 t = Some n" "0 < n"
    and seat: "s \<in> seats d0"
    and free: "\<not> seat_taken t s (bookings d0)"
    and users: "\<forall>q \<in> set reqs. case cr_user_id q of None \<Rightarrow> True | Some u \<Rightarrow> u \<in> users d0"
    and live: "\<forall>ev \<in> set sched. lives expiry (snd ev)"
    and inv: "race_inv reqs tok (lock_key t (Some s)) expiry d0 cfg"
  shows "race_inv reqs tok (lock_key t (Some s)) expiry d0 (run_race reqs sched cfg)"
  using live inv
proof (induction sched arbitrary: cfg)
  case Nil
  then show ?case by simp
next
  case (Cons ev sched)
  obtain i now where ev: "ev = (i, now)" by (cases ev)
  obtain ps st where cfg: "cfg = (ps, st)" by (cases cfg)
  from Cons.prems(1) ev have now: "lives expiry now" by simp
  have "race_inv reqs tok (lock_key t (Some s)) expiry d0 (race_step reqs ev cfg)"
    using Cons.prems(2) race_step_held [OF _ same now, of tok d0 ps st i]
      race_step_consumed [OF _ same cap seat free users, of _ ps st i now]
      race_step_committed [OF _ same, of _ ps st i now]
    unfolding race_inv_def ev cfg by blast
  with Cons.IH [of "race_step reqs ev cfg"] Cons.prems(1) show ?case by simp
qed

text \<open>
  Claim C1. For every trip and seat at most one booking with status confirmed or paid
  exists at any time: from a table that satisfies \<open>uq_trip_seat\<close>, after every sequence of
  transactions the handlers commit, and after every prefix of a race. When any number of
  \<open>confirm_booking\<close> calls for one seat race, in any interleaving of their two steps, over a
  lock that lives throughout and whose token at least one of them presents (several may
  share it), with a seat available, the seat and the users present and the seat not booked
  yet, then once all have finished exactly one has answered a booking with status
  confirmed and every other has answered 409 "Invalid or expired lock token".
\<close>

theorem confirm_booking_at_most_one:
  assumes uq: "uq_trip_seat (bookings (db st0))"
    and same: "\<forall>q \<in> set reqs. cr_trip_id q = trip_id \<and> cr_seat_id q = seat_id"
    and users: "\<forall>q \<in> set reqs. case cr_user_id q of None \<Rightarrow> True | Some u \<Rightarrow> u \<in> users (db st0)"
    and lease: "redis st0 (lock_key trip_id (Some seat_id)) = Some (tok, expiry)"
    and live: "\<forall>ev \<in> set sched. lives expiry (snd ev)"
    and holder: "\<exists>q \<in> set reqs. cr_token q = tok"
    and cap: "trips (db st0) trip_id = Some n" "0 < n"
    and seat: "seat_id \<in> seats (db st0)"
    and free: "\<not> seat_taken trip_id seat_id (bookings (db st0))"
    and complete: "\<forall>p \<in> set (fst (run_race reqs sched (replicate (length reqs) Waiting, st0))). is_finished p"
  shows "(\<forall>txs t s. length (active_bookings t s (db (run_txs txs st0))) \<le> 1)
       \<and> (\<forall>k t s. length (active_bookings t s
             (db (snd (run_race reqs (take k sched) (replicate (length reqs) Waiting, st0))))) \<le> 1)
       \<and> (\<exists>w < length reqs.
             (\<exists>b. fst (run_race reqs sched (replicate (length reqs) Waiting, st0)) ! w = Finished (Response b)
                  \<and> br_status b = ''confirmed'')
             \<and> (\<forall>i < length reqs. i \<noteq> w \<longrightarrow>
                   fst (run_race reqs sched (replicate (length reqs) Waiting, st0)) ! i
                     = Finished (HTTPException 409 (Msg ''Invalid or expired lock token''))))"
proof (intro conjI allI)
  fix txs t s
  from uq_trip_seat_at_most_one [OF run_txs_uq [OF uq, of txs]]
  show "length (active_bookings t s (db (run_txs txs st0))) \<le> 1"
    by (simp add: active_bookings_def)
next
  fix k t s
  have "uq_trip_seat (bookings (db (snd (replicate (length reqs) Waiting, st0))))"
    using uq by simp
  from uq_trip_seat_at_most_one [OF run_race_uq [OF this, of reqs "take k sched"]]
  show "length (active_bookings t s
          (db (snd (run_race reqs (take k sched) (replicate (length reqs) Waiting, st0))))) \<le> 1"
    by (simp add: active_bookings_def)
next
  let ?key = "lock_key trip_id (Some seat_id)"
  let ?cfg0 = "(replicate (length reqs) Waiting, st0)"
  obtain ps st where fin: "run_race reqs sched ?cfg0 = (ps, st)" by (cases "run_race reqs sched ?cfg0")
  have "phase_held reqs tok ?key expiry (db st0) ?cfg0"
    using lease by (simp add: phase_held_def)
  then have "race_inv reqs tok ?key expiry (db st0) ?cfg0"
    by (simp add: race_inv_def)
  from run_race_inv [OF same cap seat free users live this] fin
  have inv: "race_inv reqs tok ?key expiry (db st0) (ps, st)" by simp
  from complete fin have all_done: "\<forall>p \<in> set ps. is_finished p" by simp
  from holder obtain h where h: "h < length reqs" "cr_token (reqs ! h) = tok"
    by (auto simp add: in_set_conv_nth)
  have not_held: "\<not> phase_held reqs tok ?key expiry (db st0) (ps, st)"
  proof
    assume held: "phase_held reqs tok ?key expiry (db st0) (ps, st)"
    with h have "ps ! h = Waiting" and "h < length ps" by (auto simp add: phase_held_def)
    with all_done show False by (metis is_finished.simps(2) nth_mem)
  qed
  have not_consumed: "\<not> phase_consumed reqs ?key (db st0) w (ps, st)" for w
  proof
    assume "phase_consumed reqs ?key (db st0) w (ps, st)"
    then have "ps ! w = Consumed" and "w < length ps" by (auto simp add: phase_consumed_def)
    with all_done show False by (metis is_finished.simps(3) nth_mem)
  qed
  from inv not_held not_consumed obtain w where c: "phase_committed reqs ?key w (ps, st)"
    by (auto simp add: race_inv_def)
  then have w: "w < length reqs" and len: "length ps = length reqs"
    and won: "\<exists>b. ps ! w = Finished (Response b) \<and> br_status b = ''confirmed''"
    and others: "\<forall>i < length reqs. i \<noteq> w \<longrightarrow> ps ! i = Waiting \<or> ps ! i = Finished expired"
    by (simp_all add: phase_committed_def)
  have "\<forall>i < length reqs. i \<noteq> w \<longrightarrow> ps ! i = Finished expired"
  proof (intro allI impI)
    fix i assume i: "i < length reqs" "i \<noteq> w"
    with others have "ps ! i = Waiting \<or> ps ! i = Finished expired" by blast
    moreover from i len all_done have "is_finished (ps ! i)" by simp
    ultimately show "ps ! i = Finished expired" by auto
  qed
  with w won fin
  show "\<exists>w < length reqs.
             (\<exists>b. fst (run_race reqs sched ?cfg0) ! w = Finished (Response b) \<and> br_status b = ''confirmed'')
             \<and> (\<forall>i < length reqs. i \<noteq> w \<longrightarrow>
                   fst (run_race reqs sched ?cfg0) ! i
                     = Finished (HTTPException 409 (Msg ''Invalid or expired lock token'')))"
    by auto
qed

theorem confirm_booking_at_most_one_witness:
  "(\<forall>txs t s. length (active_bookings t s (db (run_txs txs after_lock_a))) \<le> 1)
   \<and> (\<forall>k t s. length (active_bookings t s
         (db (snd (run_race race_requests (take k race_schedule)
                    (replicate (length race_requests) Waiting, after_lock_a))))) \<le> 1)
   \<and> (\<exists>w < length race_requests.
         (\<exists>b. fst (run_race race_requests race_schedule (replicate (length race_requests) Waiting, after_lock_a)) ! w
                 = Finished (Response b) \<and> br_status b = ''confirmed'')
         \<and> (\<forall>i < length race_requests. i \<noteq> w \<longrightarrow>
               fst (run_race race_requests race_schedule (replicate (length race_requests) Waiting, after_lock_a)) ! i
                 = Finished (HTTPException 409 (Msg ''Invalid or expired lock token''))))"
proof -
  have uq: "uq_trip_seat (bookings (db after_lock_a))" by code_simp
  have same: "\<forall>q \<in> set race_requests. cr_trip_id q = 1 \<and> cr_seat_id q = 10" by code_simp
  have users: "\<forall>q \<in> set race_requests. case cr_user_id q of None \<Rightarrow> True | Some u \<Rightarrow> u \<in> users (db after_lock_a)"
    by code_simp
  have lease: "redis after_lock_a (lock_key 1 (Some 10)) = Some (''token-a'', Some 60)" by code_simp
  have live: "\<forall>ev \<in> set race_schedule. lives (Some 60) (snd ev)" by code_simp
  have holder: "\<exists>q \<in> set race_requests. cr_token q = ''token-a''" by code_simp
  have cap: "trips (db after_lock_a) 1 = Some 1" "(0::int) < 1" by code_simp+
  have seat: "10 \<in> seats (db after_lock_a)" by code_simp
  have free: "\<not> seat_taken 1 10 (bookings (db after_lock_a))" by code_simp
  have complete: "\<forall>p \<in> set (fst (run_race race_requests race_schedule
                     (replicate (length race_requests) Waiting, after_lock_a))). is_finished p"
    by code_simp
  from confirm_booking_at_most_one [OF uq same users lease live holder cap seat free complete]
  show ?thesis .
qed

section \<open>The webhook\<close>


lemma webhook_replay:
  assumes ev: "webhook_event repr cfg provider request = Inr (payload, event_id)"
    and live: "redis_get (w_now env) (redis st) (idempotency_key provider event_id) \<noteq> None"
    and up: "w_redis_up env"
  shows "payment_webhook repr cfg env provider request st = (Response (WebhookAck True), st)"
  using assms
  by (simp add: payment_webhook_def webhook_process_def webhook_claim_def is_event_processed_def redis_exists_def)




lemma redeliver_replays:
  assumes ev: "webhook_event repr cfg provider request = Inr (payload, event_id)"
    and marked: "redis st (idempotency_key provider event_id) = Some (v, Some expiry)"
    and later: "\<forall>env' \<in> set envs. w_redis_up env' \<and> w_now env' < expiry"
  shows "redeliver repr cfg provider request envs st
           = (replicate (length envs) (Response (WebhookAck True)), st)"
  using later
proof (induction envs)
  case Nil
  then show ?case by simp
next
  case (Cons env' envs)
  have "redis_get (w_now env') (redis st) (idempotency_key provider event_id) \<noteq> None"
    using marked Cons.prems by (simp add: redis_get_def)
  with ev Cons.prems have "payment_webhook repr cfg env' provider request st = (Response (WebhookAck True), st)"
    by (simp add: webhook_replay)
  with Cons show ?case by simp
qed







lemma failed_event_accepted:
  "webhook_event (\<lambda>j. []) demo_settings ''airtel'' (failed_event event_id)
     = (if event_id = [] then Inl (HTTPException 400 (Msg ''Missing event id for idempotency''))
        else Inr (failed_payload event_id, event_id))"
proof -
  have "get_adapter ''airtel'' = Some AirtelAdapter" by code_simp
  moreover have "verify_signature demo_settings AirtelAdapter (failed_event event_id)"
    by (simp add: verify_signature_def demo_settings_def failed_event_def)
  moreover have "extract_event_id (failed_payload event_id)
                   = (if event_id = [] then Inr JNull else Inr (JStr event_id))"
    by (simp add: extract_event_id_def failed_payload_def dict_get_def py_or_def get_data_or_empty_def)
  ultimately show ?thesis
    by (simp add: webhook_event_def failed_event_def py_str_def)
qed

lemma failed_payload_normalize:
  "normalize ''airtel'' (failed_payload event_id) = Inr (JStr ''failed'', JStr ''airtel_ref1'')"
proof -
  have "py_lower ''airtel'' \<noteq> ''flutterwave''" by code_simp
  then show ?thesis
    by (simp add: normalize_def failed_payload_def dict_get_def py_or_def)
qed





text \<open>
  Claim C10. When the transaction of the webhook raises after the marker was set, the
  handler answers 500 with the exception's text, the ledger is the one before the call
  (booking, payment and trip writes rolled back), and the store holds the marker. Every
  later delivery of the same request, while the marker is retained (24 hours) and the
  idempotency store answers, then answers \<open>WebhookAck(received=True)\<close> with no state change:
  the event's transition is not applied.
\<close>

theorem payment_webhook_txn_failure_keeps_marker:
  assumes ev: "webhook_event repr cfg provider request = Inr (payload, event_id)"
    and fresh: "redis_get (w_now env) (redis st) (idempotency_key provider event_id) = None"
    and up: "w_redis_up env"
    and norm: "normalize provider payload = Inr (status_str, provider_ref)"
    and raises: "webhook_txn env status_str provider_ref
                   (st\<lparr>redis := (redis st)(idempotency_key provider event_id \<mapsto> (''1'', Some (w_now env + 86400)))\<rparr>) = Inl e"
    and later: "\<forall>env' \<in> set envs. w_redis_up env' \<and> w_now env \<le> w_now env' \<and> w_now env' < w_now env + 86400"
  shows "payment_webhook repr cfg env provider request st
           = (HTTPException 500 (ExcText e),
              st\<lparr>redis := (redis st)(idempotency_key provider event_id \<mapsto> (''1'', Some (w_now env + 86400)))\<rparr>)
       \<and> redeliver repr cfg provider request envs
            (st\<lparr>redis := (redis st)(idempotency_key provider event_id \<mapsto> (''1'', Some (w_now env + 86400)))\<rparr>)
           = (replicate (length envs) (Response (WebhookAck True)),
              st\<lparr>redis := (redis st)(idempotency_key provider event_id \<mapsto> (''1'', Some (w_now env + 86400)))\<rparr>)"
proof -
  let ?k = "idempotency_key provider event_id"
  let ?r = "(redis st)(?k \<mapsto> (''1'', Some (w_now env + 86400)))"
  have mark: "mark_event_processed (w_redis_up env) (w_now env) provider event_id (redis st) = Inr (True, ?r)"
    using fresh up by (simp add: mark_event_processed_def redis_set_nx_def)
  have first: "payment_webhook repr cfg env provider request st = (HTTPException 500 (ExcText e), st\<lparr>redis := ?r\<rparr>)"
    using ev fresh up norm mark raises
    by (simp add: payment_webhook_def webhook_process_def webhook_claim_def is_event_processed_def redis_exists_def)
  have "redis (st\<lparr>redis := ?r\<rparr>) ?k = Some (''1'', Some (w_now env + 86400))" by simp
  from redeliver_replays [OF ev this] later
  have "redeliver repr cfg provider request envs (st\<lparr>redis := ?r\<rparr>)
          = (replicate (length envs) (Response (WebhookAck True)), st\<lparr>redis := ?r\<rparr>)"
    by simp
  with first show ?thesis by simp
qed

theorem payment_webhook_txn_failure_keeps_marker_witness:
  "fst (payment_webhook (\<lambda>j. []) demo_settings (demo_env 2) ''airtel'' (failed_event ''evt9'') demo_state)
     = HTTPException 500 (ExcText DBAPIError)
   \<and> db (snd (payment_webhook (\<lambda>j. []) demo_settings (demo_env 2) ''airtel'' (failed_event ''evt9'') demo_state))
       = db demo_state
   \<and> fst (redeliver (\<lambda>j. []) demo_settings ''airtel'' (failed_event ''evt9'') [demo_env 3, demo_env 4]
            (snd (payment_webhook (\<lambda>j. []) demo_settings (demo_env 2) ''airtel'' (failed_event ''evt9'') demo_state)))
       = [Response (WebhookAck True), Response (WebhookAck True)]"
proof -
  have ev: "webhook_event (\<lambda>j. []) demo_settings ''airtel'' (failed_event ''evt9'')
              = Inr (failed_payload ''evt9'', ''evt9'')"
    by (simp add: failed_event_accepted)
  have fresh: "redis_get (w_now (demo_env 2)) (redis demo_state) (idempotency_key ''airtel'' ''evt9'') = None"
    by code_simp
  have up: "w_redis_up (demo_env 2)" by (simp add: demo_env_def)
  have norm: "normalize ''airtel'' (failed_payload ''evt9'') = Inr (JStr ''failed'', JStr ''airtel_ref1'')"
    by (rule failed_payload_normalize)
  have raises: "webhook_txn (demo_env 2) (JStr ''failed'') (JStr ''airtel_ref1'')
                  (demo_state\<lparr>redis := (redis demo_state)(idempotency_key ''airtel'' ''evt9''
                                           \<mapsto> (''1'', Some (w_now (demo_env 2) + 86400)))\<rparr>)
                = Inl DBAPIError"
    by (simp add: webhook_txn_def demo_env_def demo_state_def ref_param_def status_text_def)
  have later: "\<forall>env' \<in> set [demo_env 3, demo_env 4].
                 w_redis_up env' \<and> w_now (demo_env 2) \<le> w_now env' \<and> w_now env' < w_now (demo_env 2) + 86400"
    by (simp add: demo_env_def)
  from payment_webhook_txn_failure_keeps_marker [OF ev fresh up norm raises later]
  show ?thesis by simp
qed

section \<open>The end-to-end scenario on the code\<close>



end
